theory Spec2Isabelle
  imports Main "HOL-Library.Multiset" "HOL-Library.Sublist"
begin

section \<open>Result trees\<close>

text \<open>
  The type \<open>Results\<close> of \<open>src/index.ts\<close> (and, field for field, of
  \<open>src/getDependents.ts\<close>): a scored dependent with the subtrees attached to it by
  the recursive expansion. Download counts and sizes are whole numbers; they are
  modelled as \<open>int\<close>. The source computes with double-precision numbers, whose
  \<open>+\<close>, \<open>-\<close> and \<open>*\<close> are exact on whole numbers as long as the results stay below
  \<open>2^53\<close> in absolute value.
\<close>

datatype Results =
  Results (name: string) (downloads: int) (traffic: int) (isDevDependency: bool)
    (children: "Results list") (version: string)

text \<open>
  \<open>accumulateStats\<close>: \<open>result.children.reduce((a, b) => a + accumulateStats(b), 0) +
  result.downloads\<close>. \<open>reduce\<close> with an initial value is a left fold.
\<close>

fun accumulateStats :: "Results \<Rightarrow> int" where
  "accumulateStats (Results n d t dv cs v) =
     foldl (\<lambda>a b. a + accumulateStats b) 0 cs + d"

section \<open>Strings and arrays of the host language\<close>

text \<open>
  The source is TypeScript; the library functions it calls are modelled with the
  behaviour the language standard gives them. A string is a list of characters.

  \<open>s.split(c)\<close> for a one-character separator returns a non-empty array of the
  pieces between the separators; \<open>splitParts\<close> computes its first piece and the
  list of the others.
\<close>

fun splitParts :: "char \<Rightarrow> string \<Rightarrow> string \<times> string list" where
  "splitParts c [] = ([], [])"
| "splitParts c (x # xs) =
     (case splitParts c xs of
        (p, ps) \<Rightarrow> if x = c then ([], p # ps) else (x # p, ps))"

definition split :: "char \<Rightarrow> string \<Rightarrow> string list" where
  "split c s = (case splitParts c s of (p, ps) \<Rightarrow> p # ps)"

text \<open>\<open>s.startsWith(p)\<close>.\<close>

definition startsWith :: "string \<Rightarrow> string \<Rightarrow> bool" where
  "startsWith s p = (take (length p) s = p)"

text \<open>\<open>s.lastIndexOf(c)\<close> for a character: the last position of \<open>c\<close>, or \<open>-1\<close>.\<close>

fun lastIndexOf :: "string \<Rightarrow> char \<Rightarrow> int" where
  "lastIndexOf [] c = - 1"
| "lastIndexOf (x # xs) c =
     (let i = lastIndexOf xs c
      in if 0 \<le> i then i + 1 else if x = c then 0 else - 1)"

text \<open>
  \<open>xs.slice(b, e)\<close>, of strings and of arrays alike: a negative index counts from the
  end, an index past the end is the length. The end \<open>None\<close> stands for an omitted end
  and for \<open>Infinity\<close>.
\<close>

definition relativeIndex :: "nat \<Rightarrow> int \<Rightarrow> nat" where
  "relativeIndex len i = (if i < 0 then nat (max (int len + i) 0) else min (nat i) len)"

definition slice :: "'a list \<Rightarrow> int \<Rightarrow> int option \<Rightarrow> 'a list" where
  "slice xs b e =
     (let from = relativeIndex (length xs) b;
          to = (case e of None \<Rightarrow> length xs | Some i \<Rightarrow> relativeIndex (length xs) i)
      in take (to - from) (drop from xs))"

text \<open>\<open>s.includes(sub)\<close>: \<open>sub\<close> occurs in \<open>s\<close> as a contiguous substring.\<close>

fun includesStr :: "string \<Rightarrow> string \<Rightarrow> bool" where
  "includesStr [] sub = (sub = [])"
| "includesStr (x # xs) sub = (startsWith (x # xs) sub \<or> includesStr xs sub)"

text \<open>
  \<open>xs.sort(cmp)\<close>: the standard requires a stable sort, so for a comparator that is
  a consistent ordering the result is the one stable insertion gives. An element is put
  before the first element it does not compare greater than; inserting from the right
  keeps elements that compare equal in their original order.
\<close>

fun insertBy :: "('a \<Rightarrow> 'a \<Rightarrow> int) \<Rightarrow> 'a \<Rightarrow> 'a list \<Rightarrow> 'a list" where
  "insertBy cmp x [] = [x]"
| "insertBy cmp x (y # ys) = (if cmp x y \<le> 0 then x # y # ys else y # insertBy cmp x ys)"

definition sortBy :: "('a \<Rightarrow> 'a \<Rightarrow> int) \<Rightarrow> 'a list \<Rightarrow> 'a list" where
  "sortBy cmp xs = foldr (insertBy cmp) xs []"

text \<open>
  A value read from the object that \<open>fetchDownloadStats\<close> returns. The object is
  built by \<open>Object.fromEntries\<close>, so it inherits from \<open>Object.prototype\<close>: reading a
  key that is not among its entries but names a member of the prototype gives that
  member (a function, or the prototype itself), not \<open>undefined\<close>. Multiplying such a
  value gives \<open>NaN\<close>.
\<close>

datatype JsValue = Number int | Inherited string | NaN

definition objectPrototypeKeys :: "string list" where
  "objectPrototypeKeys =
     [''constructor'', ''hasOwnProperty'', ''isPrototypeOf'', ''propertyIsEnumerable'',
      ''toLocaleString'', ''toString'', ''valueOf'', ''__defineGetter__'',
      ''__defineSetter__'', ''__lookupGetter__'', ''__lookupSetter__'', ''__proto__'']"

text \<open>\<open>Object.fromEntries(docs)\<close>: of two entries with one key the later one stays.\<close>

definition fromEntries :: "(string \<times> int) list \<Rightarrow> (string \<rightharpoonup> int)" where
  "fromEntries docs = map_of (rev docs)"

text \<open>\<open>obj[k]\<close>; \<open>None\<close> is \<open>undefined\<close>.\<close>

definition getProperty :: "(string \<rightharpoonup> int) \<Rightarrow> string \<Rightarrow> JsValue option" where
  "getProperty obj k =
     (case obj k of
        Some v \<Rightarrow> Some (Number v)
      | None \<Rightarrow> if k \<in> set objectPrototypeKeys then Some (Inherited k) else None)"

text \<open>\<open>v * n\<close> for a number \<open>n\<close>.\<close>

fun multiply :: "JsValue \<Rightarrow> int \<Rightarrow> JsValue" where
  "multiply (Number a) n = Number (a * n)"
| "multiply (Inherited k) n = NaN"
| "multiply NaN n = NaN"

section \<open>Command line and services\<close>

text \<open>
  The options of \<open>src/index.ts\<close> (interface \<open>Args\<close>), read by every function from
  the global \<open>argv\<close>; the model passes them as a parameter. An optional option that
  is absent is \<open>None\<close>, an absent boolean is \<open>False\<close>.
\<close>

record Args =
  number :: int
  file' :: "string option"
  exclude :: "string option"
  dev :: bool
  list :: bool
  recursive :: int
  depths :: int
  accumulate :: bool

text \<open>What the registry answers for a package: its version and \<open>dist?.size\<close>.\<close>

record NpmPackageInfo =
  info_name :: string
  info_version :: string
  dist_size :: "int option"

text \<open>
  A row's \<open>value\<close> in the answer of the dependents view, \<open>{ name, version }\<close>, and
  the two shapes of the answer: the view of dev dependencies has rows \<open>(id, key,
  value)\<close> whose value is a string, the view of dependencies has rows whose value is
  a name with a version range.
\<close>

record Dependent =
  dep_name :: string
  dep_version :: string

datatype DependentsResponse =
    LocalDependendsResponseDev "(string \<times> string \<times> string) list"
  | LocalDependendsResponseProd "(string \<times> string \<times> Dependent) list"

text \<open>
  The services the program talks to, as functions of the request. \<open>None\<close> is a
  request that fails: a transport error, a status that is not 2xx, a body that does not
  parse. \<open>satisfies\<close> is \<open>semver.satisfies\<close> of the semver library, and
  \<open>writeFile\<close> tells whether writing the named file succeeds.
\<close>

record Env =
  registry :: "string \<Rightarrow> string \<Rightarrow> NpmPackageInfo option"
  dependentsView :: "bool \<Rightarrow> string \<Rightarrow> DependentsResponse option"
  downloadsView :: "string list \<Rightarrow> (string \<times> int) list option"
  satisfies :: "string \<Rightarrow> string \<Rightarrow> bool"
  writeFile :: "string \<Rightarrow> bool"

text \<open>
  \<open>fetchPackageInfo(packageName, version = "latest")\<close>: the default stands in for
  \<open>undefined\<close> only; every failure is caught and gives \<open>null\<close>.
\<close>

definition fetchPackageInfo :: "Env \<Rightarrow> string \<Rightarrow> string option \<Rightarrow> NpmPackageInfo option" where
  "fetchPackageInfo env packageName v =
     registry env packageName (case v of None \<Rightarrow> ''latest'' | Some w \<Rightarrow> w)"

text \<open>
  \<open>fetchDependents(packageName, dev)\<close>: throws (\<open>None\<close>) when the request fails;
  rows whose value is a string are rewritten to \<open>{ name: p.id, version: "" }\<close>.
\<close>

definition fetchDependents :: "Env \<Rightarrow> string \<Rightarrow> bool \<Rightarrow> Dependent list option" where
  "fetchDependents env packageName dv =
     (case dependentsView env dv packageName of
        None \<Rightarrow> None
      | Some (LocalDependendsResponseDev rows) \<Rightarrow>
          Some (if rows \<noteq> []
                then map (\<lambda>(i, k, s). \<lparr>dep_name = i, dep_version = []\<rparr>) rows
                else [])
      | Some (LocalDependendsResponseProd rows) \<Rightarrow> Some (map (\<lambda>(i, k, d). d) rows))"

text \<open>
  \<open>fetchDownloadStats(packageNames)\<close>: throws (\<open>None\<close>) when the request fails, and
  otherwise returns the object made of the rows' \<open>(key, value)\<close> pairs.
\<close>

definition fetchDownloadStats :: "Env \<Rightarrow> string list \<Rightarrow> (string \<rightharpoonup> int) option" where
  "fetchDownloadStats env packageNames =
     (case downloadsView env packageNames of
        None \<Rightarrow> None
      | Some docs \<Rightarrow> Some (fromEntries docs))"

section \<open>The input parser\<close>

text \<open>
  \<open>getPackageNameAndVersion\<close> (\<open>getnameAndVersion\<close> in \<open>src/getDependents.ts\<close>,
  with the same body). The destructuring \<open>[packageName, version] = split("@")\<close> takes
  the first two pieces; \<open>version\<close> is \<open>undefined\<close> (\<open>None\<close>) when there is one
  piece only. In the scoped case both are assigned again.
\<close>

definition getPackageNameAndVersion :: "string \<Rightarrow> string \<times> string option" where
  "getPackageNameAndVersion inputPackage =
     (case splitParts CHR ''@'' inputPackage of
        (packageName, others) \<Rightarrow>
          if startsWith inputPackage ''@'' then
            (let atPosition = lastIndexOf inputPackage CHR ''@''
             in if atPosition = 0 then (inputPackage, None)
                else (slice inputPackage 0 (Some atPosition),
                      Some (slice inputPackage (atPosition + 1) None)))
          else (packageName, case others of [] \<Rightarrow> None | v # vs \<Rightarrow> Some v))"

section \<open>Filtering, scoring and accumulation\<close>

text \<open>
  \<open>filterExcludes\<close>: \<open>argv.exclude?.split(",").every((ex) => !pkg.name.includes(ex))
  ?? true\<close>.
\<close>

definition filterExcludes :: "Args \<Rightarrow> Results \<Rightarrow> bool" where
  "filterExcludes argv pkg =
     (case exclude argv of
        None \<Rightarrow> True
      | Some e \<Rightarrow>
          list_all (\<lambda>ex. \<not> includesStr (name pkg) ex) (split CHR '','' e))"

text \<open>The comparator of both sorts, \<open>(a, b) => b.downloads - a.downloads\<close>.\<close>

definition byDownloads :: "Results \<Rightarrow> Results \<Rightarrow> int" where
  "byDownloads a b = downloads b - downloads a"

text \<open>\<open>packageInfo.dist?.size ?? 0\<close>.\<close>

definition distSize :: "NpmPackageInfo \<Rightarrow> int" where
  "distSize packageInfo = (case dist_size packageInfo of None \<Rightarrow> 0 | Some n \<Rightarrow> n)"

text \<open>
  The first two lines of the callback of \<open>dependents.map\<close> in \<open>main\<close>:
  \<open>downloads = downloadStats[dep.value.name] ?? 0\<close> and \<open>traffic = downloads *
  (packageInfo.dist?.size ?? 0)\<close>.
\<close>

definition downloadsOf :: "(string \<rightharpoonup> int) \<Rightarrow> string \<Rightarrow> JsValue" where
  "downloadsOf downloadStats nm =
     (case getProperty downloadStats nm of None \<Rightarrow> Number 0 | Some v \<Rightarrow> v)"

definition trafficOf :: "(string \<rightharpoonup> int) \<Rightarrow> NpmPackageInfo \<Rightarrow> string \<Rightarrow> JsValue" where
  "trafficOf downloadStats packageInfo nm =
     multiply (downloadsOf downloadStats nm) (distSize packageInfo)"

text \<open>
  The node the callback returns. \<open>Results\<close> declares \<open>downloads\<close> and \<open>traffic\<close>
  numbers; when the value read is not a number the code goes on with a node outside
  its declared type, which this model does not follow: the result is then \<open>Inl\<close> of
  the dependent's name.
\<close>

definition toResult :: "Args \<Rightarrow> (string \<rightharpoonup> int) \<Rightarrow> NpmPackageInfo \<Rightarrow> Dependent \<Rightarrow> string + Results" where
  "toResult argv downloadStats packageInfo dep =
     (case (downloadsOf downloadStats (dep_name dep),
            trafficOf downloadStats packageInfo (dep_name dep)) of
        (Number d, Number t) \<Rightarrow> Inr (Results (dep_name dep) d t (dev argv) [] (dep_version dep))
      | _ \<Rightarrow> Inl (dep_name dep))"

fun toResults :: "Args \<Rightarrow> (string \<rightharpoonup> int) \<Rightarrow> NpmPackageInfo \<Rightarrow> Dependent list \<Rightarrow> string + Results list" where
  "toResults argv downloadStats packageInfo [] = Inr []"
| "toResults argv downloadStats packageInfo (dep # deps) =
     (case toResult argv downloadStats packageInfo dep of
        Inl nm \<Rightarrow> Inl nm
      | Inr r \<Rightarrow>
          (case toResults argv downloadStats packageInfo deps of
             Inl nm \<Rightarrow> Inl nm
           | Inr rs \<Rightarrow> Inr (r # rs)))"

text \<open>
  The accumulation pass of \<open>main\<close>: each node of \<open>topResults\<close> gets
  \<open>downloads = accumulateStats(result)\<close>, \<open>traffic = result.downloads *
  (packageInfo.dist?.size ?? 0)\<close> with the new downloads, and \<open>children = []\<close>; then
  \<open>topResults\<close> is sorted again.
\<close>

definition accumulateResult :: "NpmPackageInfo \<Rightarrow> Results \<Rightarrow> Results" where
  "accumulateResult packageInfo result =
     Results (name result) (accumulateStats result)
       (accumulateStats result * distSize packageInfo)
       (isDevDependency result) [] (version result)"

definition accumulateTop :: "NpmPackageInfo \<Rightarrow> Results list \<Rightarrow> Results list" where
  "accumulateTop packageInfo topResults =
     sortBy byDownloads (map (accumulateResult packageInfo) topResults)"

text \<open>
  The rows \<open>printOutput\<close> renders: \<open>results.filter(filterExcludes).slice(0,
  argv.number).slice(0, argv.depths ? argv.recursive || Infinity : Infinity)\<close>. How a
  row is formatted is not modelled.
\<close>

definition printOutput :: "Args \<Rightarrow> Results list \<Rightarrow> Results list" where
  "printOutput argv results =
     slice (slice (filter (filterExcludes argv) results) 0 (Some (number argv))) 0
       (if depths argv \<noteq> 0 \<and> recursive argv \<noteq> 0 then Some (recursive argv) else None)"

section \<open>The tree builder\<close>

text \<open>
  What a call of \<open>main\<close> does, as a value. \<open>Exited\<close> is \<open>process.exit\<close> with the
  exit status the process ends with and the message written to the error stream before
  it; \<open>Rejected\<close> is a rejected promise (a fetch or the file write threw);
  \<open>NotNumeric\<close> names a dependent whose downloads are not a number (see
  \<open>toResult\<close>); \<open>Listed\<close> holds the arguments of the calls of \<open>console.log\<close> in
  list mode, after which the call returns \<open>undefined\<close>; \<open>Returned\<close> is
  \<open>return topResults\<close>; \<open>Printed\<close> holds the rows the outermost call renders.
\<close>

datatype Logged = LoggedString string | LoggedObject Dependent

datatype Outcome =
    Exited int string
  | Rejected
  | NotNumeric string
  | Listed "Logged list"
  | Returned "Results list"
  | Printed "Results list"

text \<open>
  The expansion \<open>Promise.all(selection.map(async (r) => { r.children = await
  main(r.name, depths - 1); return r; }))\<close>, with \<open>expandOne r\<close> for the inner call
  on \<open>r\<close>. The inner calls depend on nothing but their arguments and the services, so
  the order in which they run does not change what they return; the model takes them
  from left to right. An inner call that does not return a list ends the expansion
  with its own outcome (\<open>Inl\<close>).
\<close>

fun expand :: "(Results \<Rightarrow> Outcome option) \<Rightarrow> Results list \<Rightarrow> (Outcome + Results list) option" where
  "expand expandOne [] = Some (Inr [])"
| "expand expandOne (r # rs) =
     (case expandOne r of
        None \<Rightarrow> None
      | Some (Returned recursiveResults) \<Rightarrow>
          (case expand expandOne rs of
             None \<Rightarrow> None
           | Some (Inl out) \<Rightarrow> Some (Inl out)
           | Some (Inr rs') \<Rightarrow>
               Some (Inr (Results (name r) (downloads r) (traffic r) (isDevDependency r)
                            recursiveResults (version r) # rs')))
      | Some out \<Rightarrow> Some (Inl out))"

text \<open>
  \<open>main(inputPackage, depths)\<close> of \<open>src/index.ts\<close>, in two parts.
  \<open>scoredResults\<close> is the body of \<open>main\<close> up to and including
  \<open>results.sort(...)\<close>: it resolves the package, fetches and filters the dependents,
  and scores and sorts them. It ends the call early (\<open>Inl\<close>) when the package does
  not resolve, when a fetch throws and in list mode; otherwise it gives the package
  information and the sorted \<open>results\<close>.

  \<open>process.exit()\<close> is called without an argument and \<open>process.exitCode\<close> is never
  set, so the exit status is \<open>0\<close>. \<open>!version\<close> holds of \<open>undefined\<close> and of the empty
  string. In list mode \<open>console.log\<close> is given \<open>d.value\<close>, the object with the name
  and the version range.
\<close>

definition scoredResults :: "Env \<Rightarrow> Args \<Rightarrow> string \<Rightarrow> int \<Rightarrow> Outcome + NpmPackageInfo \<times> Results list" where
  "scoredResults env argv inputPackage d =
     (case getPackageNameAndVersion inputPackage of
        (packageName, v) \<Rightarrow>
     (case fetchPackageInfo env packageName v of
        None \<Rightarrow>
          if recursive argv \<noteq> 0 \<and> depths argv \<noteq> d then Inl (Returned [])
          else Inl (Exited 0 (''Failed to fetch package info for '' @ packageName))
      | Some packageInfo \<Rightarrow>
     (case fetchDependents env packageName (dev argv) of
        None \<Rightarrow> Inl Rejected
      | Some dependentsWithVersion \<Rightarrow>
     (let dependents =
            filter (\<lambda>dependent. v = None \<or> v = Some [] \<or>
                      satisfies env (info_version packageInfo) (dep_version dependent))
              dependentsWithVersion
      in if list argv then Inl (Listed (map LoggedObject dependents))
         else
     (case fetchDownloadStats env (map dep_name dependents) of
        None \<Rightarrow> Inl Rejected
      | Some downloadStats \<Rightarrow>
     (case toResults argv downloadStats packageInfo dependents of
        Inl nm \<Rightarrow> Inl (NotNumeric nm)
      | Inr unsorted \<Rightarrow> Inr (packageInfo, sortBy byDownloads unsorted)))))))"

text \<open>
  The rest of \<open>main\<close>: the recursive expansion of the selected nodes, the return of
  an inner call, and for the outermost call the file, the accumulation and the output.
  The recursion need not end (a negative \<open>depths\<close> never reaches \<open>0\<close>), so the model
  counts the nesting of calls down from a bound and is \<open>None\<close> when the bound is used
  up. The content of the file is not modelled, only whether writing it throws.
\<close>

fun main :: "Env \<Rightarrow> Args \<Rightarrow> nat \<Rightarrow> string \<Rightarrow> int \<Rightarrow> Outcome option" where
  "main env argv 0 inputPackage d = None"
| "main env argv (Suc fuel) inputPackage d =
     (case scoredResults env argv inputPackage d of
        Inl out \<Rightarrow> Some out
      | Inr (packageInfo, results) \<Rightarrow>
     (case (if recursive argv \<noteq> 0 \<and> d \<noteq> 0
            then expand (\<lambda>r. main env argv fuel (name r) (d - 1))
                   (slice (filter (filterExcludes argv) results) 0 (Some (recursive argv)))
            else Some (Inr results)) of
        None \<Rightarrow> None
      | Some (Inl out) \<Rightarrow> Some out
      | Some (Inr topResults) \<Rightarrow>
          if d \<noteq> depths argv then Some (Returned topResults)
          else if (case file' argv of None \<Rightarrow> False
                   | Some f \<Rightarrow> f \<noteq> [] \<and> \<not> writeFile env f)
          then Some Rejected
          else Some (Printed (printOutput argv
                       (if accumulate argv then accumulateTop packageInfo topResults
                        else topResults)))))"

section \<open>Notions of the specification\<close>

text \<open>A list of nodes in descending order of downloads.\<close>

definition sortedByDownloads :: "Results list \<Rightarrow> bool" where
  "sortedByDownloads rs = sorted_wrt (\<lambda>a b. downloads b \<le> downloads a) rs"

text \<open>
  The input parser as the specification words it. The text of a token before and
  after its first \<open>@\<close>, and before and after its last \<open>@\<close>:
\<close>

definition beforeFirst :: "string \<Rightarrow> string" where
  "beforeFirst tok = takeWhile (\<lambda>c. c \<noteq> CHR ''@'') tok"

definition afterFirst :: "string \<Rightarrow> string" where
  "afterFirst tok = drop 1 (dropWhile (\<lambda>c. c \<noteq> CHR ''@'') tok)"

definition beforeLast :: "string \<Rightarrow> string" where
  "beforeLast tok = rev (afterFirst (rev tok))"

definition afterLast :: "string \<Rightarrow> string" where
  "afterLast tok = rev (beforeFirst (rev tok))"

text \<open>
  The specification: a token that starts with \<open>@\<close> and has another \<open>@\<close> after
  position 0 is split at the last \<open>@\<close>; one that starts with \<open>@\<close> and has no other
  is the name, with no version; a token that does not start with \<open>@\<close> is split at the
  first \<open>@\<close> (and is the name, with no version, when it has none).
\<close>

definition parseSpec :: "string \<Rightarrow> string \<times> string option" where
  "parseSpec tok =
     (if startsWith tok ''@'' then
        (if CHR ''@'' \<in> set (tl tok) then (beforeLast tok, Some (afterLast tok))
         else (tok, None))
      else if CHR ''@'' \<in> set tok then (beforeFirst tok, Some (afterFirst tok))
      else (tok, None))"

section \<open>An example run\<close>

text \<open>
  The options as the command line defaults them (\<open>--number 200\<close>, \<open>--recursive 3\<close>,
  \<open>--depths 0\<close>), and services for a small world: every package but \<open>gone\<close>
  resolves, with an unpacked size of 10; \<open>p\<close> has the dependents \<open>a\<close>, \<open>b\<close>, \<open>c\<close>
  and \<open>d\<close> with 5, 100, 5 and 20 downloads, \<open>b\<close> has the dependent \<open>x\<close> with 7, and
  \<open>q\<close> has the dependent \<open>constructor\<close>, for which the downloads view has no row.
\<close>

definition defaultArgs :: Args where
  "defaultArgs =
     \<lparr>number = 200, file' = None, exclude = None, dev = False, list = False,
      recursive = 3, depths = 0, accumulate = False\<rparr>"

definition row :: "string \<Rightarrow> string \<Rightarrow> string \<times> string \<times> Dependent" where
  "row target nm = (nm, target, \<lparr>dep_name = nm, dep_version = ''^1''\<rparr>)"

definition exampleEnv :: Env where
  "exampleEnv =
     \<lparr>registry = (\<lambda>nm v. if nm = ''gone'' then None
                     else Some \<lparr>info_name = nm, info_version = ''1.0.0'', dist_size = Some 10\<rparr>),
      dependentsView = (\<lambda>dv nm.
         if nm = ''p'' then
           Some (LocalDependendsResponseProd
                   [row ''p'' ''a'', row ''p'' ''b'', row ''p'' ''c'', row ''p'' ''d''])
         else if nm = ''b'' then Some (LocalDependendsResponseProd [row ''b'' ''x''])
         else if nm = ''q'' then Some (LocalDependendsResponseProd [row ''q'' ''constructor''])
         else Some (LocalDependendsResponseProd [])),
      downloadsView = (\<lambda>keys.
         Some (filter (\<lambda>(k, n). k \<in> set keys)
                 [(''a'', 5), (''b'', 100), (''c'', 5), (''d'', 20), (''x'', 7)])),
      satisfies = (\<lambda>v r. True),
      writeFile = (\<lambda>f. True)\<rparr>"



section \<open>Sorting\<close>

text \<open>
  With the comparator of the program, \<open>sortBy\<close> is the stable insertion sort of the
  library on the key \<open>- downloads\<close>.
\<close>

lemma insertBy_byDownloads:
  "insertBy byDownloads x ys = insort_key (\<lambda>r. - downloads r) x ys"
  by (induction ys) (simp_all add: byDownloads_def)

lemma sortBy_byDownloads: "sortBy byDownloads xs = sort_key (\<lambda>r. - downloads r) xs"
  by (induction xs) (simp_all add: sortBy_def insertBy_byDownloads)

lemma sortedByDownloads_iff:
  "sortedByDownloads rs = sorted (map (\<lambda>r. - downloads r) rs)"
  by (simp add: sortedByDownloads_def sorted_map)

lemma sortedByDownloads_sortBy: "sortedByDownloads (sortBy byDownloads rs)"
  by (simp add: sortedByDownloads_iff sortBy_byDownloads)

lemma sortBy_sorted_id: "sortedByDownloads rs \<Longrightarrow> sortBy byDownloads rs = rs"
  by (simp add: sortedByDownloads_iff sortBy_byDownloads sort_key_id_if_sorted)


lemma set_sortBy: "set (sortBy byDownloads rs) = set rs"
  by (simp add: sortBy_byDownloads)





lemma accumulateResult_idem:
  "accumulateResult info (accumulateResult info r) = accumulateResult info r"
  by (simp add: accumulateResult_def)

section \<open>The parser\<close>

lemma fst_splitParts: "fst (splitParts c s) = takeWhile (\<lambda>x. x \<noteq> c) s"
  by (induction s) (auto split: prod.splits)

lemma snd_splitParts_head:
  "(case snd (splitParts c s) of [] \<Rightarrow> None | p # ps \<Rightarrow> Some p) =
     (if c \<in> set s
      then Some (takeWhile (\<lambda>x. x \<noteq> c) (drop 1 (dropWhile (\<lambda>x. x \<noteq> c) s)))
      else None)"
proof (induction s)
  case Nil
  then show ?case by simp
next
  case (Cons x xs)
  show ?case
  proof (cases "x = c")
    case True
    then show ?thesis
      using fst_splitParts[of c xs] by (auto split: prod.splits)
  next
    case False
    then show ?thesis
      using Cons.IH by (auto split: prod.splits)
  qed
qed

lemma takeWhile_shorter:
  "c \<in> set s \<Longrightarrow> length (takeWhile (\<lambda>x. x \<noteq> c) s) < length s"
  by (induction s) auto

lemma lastIndexOf_absent: "c \<notin> set s \<Longrightarrow> lastIndexOf s c = - 1"
  by (induction s) auto

lemma lastIndexOf_present:
  "c \<in> set s \<Longrightarrow>
     lastIndexOf s c = int (length s) - 1 - int (length (takeWhile (\<lambda>x. x \<noteq> c) (rev s)))"
proof (induction s)
  case Nil
  then show ?case by simp
next
  case (Cons x xs)
  show ?case
  proof (cases "c \<in> set xs")
    case True
    then have "length (takeWhile (\<lambda>x. x \<noteq> c) (rev xs)) < length xs"
      using takeWhile_shorter[of c "rev xs"] by simp
    with True Cons.IH show ?thesis
      by (simp add: takeWhile_append1[of c])
  next
    case False
    with Cons.prems have "x = c" by simp
    have "takeWhile (\<lambda>x. x \<noteq> c) (rev xs @ [c]) = rev xs"
      using False by (subst takeWhile_append2) auto
    with False \<open>x = c\<close> show ?thesis
      by (simp add: lastIndexOf_absent)
  qed
qed

lemma slice_prefix: "0 \<le> i \<Longrightarrow> slice xs 0 (Some i) = take (nat i) xs"
  by (simp add: slice_def relativeIndex_def Let_def min_def)

lemma slice_suffix: "0 \<le> i \<Longrightarrow> slice xs i None = drop (nat i) xs"
  by (simp add: slice_def relativeIndex_def Let_def min_def)

lemma take_before_last:
  assumes "c \<in> set s"
  shows "take (length s - 1 - length (takeWhile (\<lambda>x. x \<noteq> c) (rev s))) s
           = rev (drop 1 (dropWhile (\<lambda>x. x \<noteq> c) (rev s)))"
proof -
  let ?m = "length (takeWhile (\<lambda>x. x \<noteq> c) (rev s))"
  have m: "?m < length s" using takeWhile_shorter[of c "rev s"] assms by simp
  have "rev (drop 1 (dropWhile (\<lambda>x. x \<noteq> c) (rev s))) = rev (drop (Suc ?m) (rev s))"
    by (simp add: dropWhile_eq_drop)
  also have "\<dots> = take (length s - Suc ?m) s"
    by (simp add: rev_drop)
  finally show ?thesis by simp
qed

lemma drop_after_last:
  assumes "c \<in> set s"
  shows "drop (Suc (length s - 1 - length (takeWhile (\<lambda>x. x \<noteq> c) (rev s)))) s
           = rev (takeWhile (\<lambda>x. x \<noteq> c) (rev s))"
proof -
  let ?m = "length (takeWhile (\<lambda>x. x \<noteq> c) (rev s))"
  have m: "?m < length s" using takeWhile_shorter[of c "rev s"] assms by simp
  have "rev (takeWhile (\<lambda>x. x \<noteq> c) (rev s)) = rev (take ?m (rev s))"
    by (simp add: takeWhile_eq_take[symmetric])
  also have "\<dots> = drop (length s - ?m) s"
    by (simp add: rev_take)
  also have "length s - ?m = Suc (length s - 1 - ?m)" using m by simp
  finally show ?thesis by simp
qed

lemma scoped_cases: "startsWith tok ''@'' \<Longrightarrow> \<exists>rest. tok = CHR ''@'' # rest"
  by (cases tok) (simp_all add: startsWith_def)

lemma getPackageNameAndVersion_scoped:
  assumes "startsWith tok ''@''"
  shows "getPackageNameAndVersion tok =
           (if CHR ''@'' \<in> set (tl tok) then (beforeLast tok, Some (afterLast tok))
            else (tok, None))"
proof -
  from assms obtain rest where tok: "tok = CHR ''@'' # rest" using scoped_cases by blast
  let ?m = "length (takeWhile (\<lambda>x. x \<noteq> CHR ''@'') (rev tok))"
  have mem: "CHR ''@'' \<in> set tok" by (simp add: tok)
  have m: "?m < length tok" using takeWhile_shorter[of "CHR ''@''" "rev tok"] mem by simp
  have pos: "lastIndexOf tok CHR ''@'' = int (length tok) - 1 - int ?m"
    using lastIndexOf_present[OF mem] .
  show ?thesis
  proof (cases "CHR ''@'' \<in> set rest")
    case False
    then have "lastIndexOf tok CHR ''@'' = 0"
      by (simp add: tok lastIndexOf_absent)
    with False assms show ?thesis
      by (simp add: getPackageNameAndVersion_def Let_def tok)
  next
    case True
    then have nz: "lastIndexOf tok CHR ''@'' \<noteq> 0"
      using lastIndexOf_present[of "CHR ''@''" rest] takeWhile_shorter[of "CHR ''@''" "rev rest"]
      by (simp add: tok)
    have ge: "0 \<le> lastIndexOf tok CHR ''@''" using pos m by simp
    have n: "nat (lastIndexOf tok CHR ''@'') = length tok - 1 - ?m"
      using pos m by simp
    have n1: "nat (lastIndexOf tok CHR ''@'' + 1) = Suc (length tok - 1 - ?m)"
      using pos m by simp
    have a: "slice tok 0 (Some (lastIndexOf tok CHR ''@'')) = beforeLast tok"
      using take_before_last[OF mem]
      by (simp add: slice_prefix[OF ge] n beforeLast_def afterFirst_def)
    have b: "slice tok (lastIndexOf tok CHR ''@'' + 1) None = afterLast tok"
      using drop_after_last[OF mem] ge
      by (simp add: slice_suffix n1 afterLast_def beforeFirst_def)
    from True assms nz a b show ?thesis
      by (simp add: getPackageNameAndVersion_def Let_def) (simp add: tok)
  qed
qed

lemma getPackageNameAndVersion_unscoped:
  assumes "\<not> startsWith tok ''@''"
  shows "getPackageNameAndVersion tok =
           (if CHR ''@'' \<in> set tok then (beforeFirst tok, Some (beforeFirst (afterFirst tok)))
            else (tok, None))"
proof -
  obtain p ps where sp: "splitParts CHR ''@'' tok = (p, ps)"
    by (cases "splitParts CHR ''@'' tok")
  have p: "p = takeWhile (\<lambda>x. x \<noteq> CHR ''@'') tok"
    using fst_splitParts[of "CHR ''@''" tok] sp by simp
  have ps: "(case ps of [] \<Rightarrow> None | v # vs \<Rightarrow> Some v) =
     (if CHR ''@'' \<in> set tok
      then Some (takeWhile (\<lambda>x. x \<noteq> CHR ''@'') (drop 1 (dropWhile (\<lambda>x. x \<noteq> CHR ''@'') tok)))
      else None)"
    using snd_splitParts_head[of "CHR ''@''" tok] sp by simp
  have whole: "CHR ''@'' \<notin> set tok \<Longrightarrow> takeWhile (\<lambda>x. x \<noteq> CHR ''@'') tok = tok"
    by (auto simp: takeWhile_eq_all_conv)
  show ?thesis using assms whole
    by (simp add: getPackageNameAndVersion_def sp p ps beforeFirst_def afterFirst_def)
qed

section \<open>The tree builder, step by step\<close>

subsection \<open>The expansion and the first part of a call\<close>

lemma expand_cong_set:
  "(\<And>r. r \<in> set rs \<Longrightarrow> f r = g r) \<Longrightarrow> expand f rs = expand g rs"
  by (induction rs) (simp_all cong: option.case_cong Outcome.case_cong)

lemma expand_Inr:
  "expand f rs = Some (Inr ys) \<Longrightarrow>
     map downloads ys = map downloads rs \<and> map name ys = map name rs \<and>
     map traffic ys = map traffic rs \<and> length ys = length rs"
  by (induction rs arbitrary: ys)
     (auto split: option.splits Outcome.splits sum.splits)

lemma expand_Inl:
  "expand f rs = Some (Inl out) \<Longrightarrow> \<exists>r \<in> set rs. f r = Some out \<and> (\<forall>cs. out \<noteq> Returned cs)"
  by (induction rs)
     (auto split: option.splits Outcome.splits sum.splits)



lemma scoredResults_Inl:
  assumes "scoredResults env argv p d = Inl out"
  shows "out \<noteq> Printed rows" and "out = Returned rs \<Longrightarrow> rs = []"
    and "out = Exited c m \<Longrightarrow> recursive argv = 0 \<or> d = depths argv"
    and "out = Listed ls \<Longrightarrow> list argv"
  using assms
  by (auto simp: scoredResults_def Let_def
           split: prod.splits option.splits sum.splits if_splits)




subsection \<open>What a call returns and prints\<close>


lemma inner_not_Printed:
  "d < depths argv \<Longrightarrow> main env argv fuel p d \<noteq> Some (Printed rows)"
proof (induction fuel arbitrary: p d)
  case 0
  then show ?case by simp
next
  case (Suc fuel)
  have inner: "\<And>r. main env argv fuel (name r) (d - 1) \<noteq> Some (Printed rows)"
    using Suc.prems by (intro Suc.IH) simp
  show ?case using Suc.prems inner
    by (auto split: prod.splits option.splits sum.splits if_splits
             dest!: expand_Inl scoredResults_Inl(1)[where rows = rows])
qed

lemma main_top_Printed:
  assumes "main env argv fuel p (depths argv) = Some (Printed rows)"
  shows "\<exists>info results topResults.
           scoredResults env argv p (depths argv) = Inr (info, results) \<and>
           (if recursive argv \<noteq> 0 \<and> depths argv \<noteq> 0
            then map name topResults = map name (slice (filter (filterExcludes argv) results) 0 (Some (recursive argv))) \<and>
                 map downloads topResults = map downloads (slice (filter (filterExcludes argv) results) 0 (Some (recursive argv)))
            else topResults = results) \<and>
           rows = printOutput argv (if accumulate argv then accumulateTop info topResults else topResults)"
proof (cases fuel)
  case 0
  with assms show ?thesis by simp
next
  case (Suc n)
  have inner: "\<And>r. main env argv n (name r) (depths argv - 1) \<noteq> Some (Printed rows)"
    by (intro inner_not_Printed) simp
  show ?thesis using assms Suc inner
    by (auto split: prod.splits option.splits sum.splits if_splits
             dest!: expand_Inl expand_Inr scoredResults_Inl(1)[where rows = rows])
qed


subsection \<open>Termination\<close>

text \<open>
  A call with a depth that is not negative returns when the bound on the nesting
  exceeds the depth.
\<close>

lemma expand_total:
  "(\<And>r. r \<in> set rs \<Longrightarrow> f r \<noteq> None) \<Longrightarrow> expand f rs \<noteq> None"
  by (induction rs) (auto split: option.splits Outcome.splits sum.splits)

lemma main_terminates:
  "0 \<le> d \<Longrightarrow> nat d < fuel \<Longrightarrow> main env argv fuel p d \<noteq> None"
proof (induction fuel arbitrary: p d)
  case 0
  then show ?case by simp
next
  case (Suc fuel)
  show ?case
  proof (cases "scoredResults env argv p d")
    case (Inl out)
    then show ?thesis by simp
  next
    case (Inr pr)
    obtain info results where pr: "pr = (info, results)" by (cases pr)
    show ?thesis
    proof (cases "recursive argv \<noteq> 0 \<and> d \<noteq> 0")
      case True
      have inner: "main env argv fuel (name r) (d - 1) \<noteq> None" for r
        using Suc.prems True by (intro Suc.IH) arith+
      have "expand (\<lambda>r. main env argv fuel (name r) (d - 1))
              (slice (filter (filterExcludes argv) results) 0 (Some (recursive argv))) \<noteq> None"
        by (rule expand_total) (rule inner)
      then obtain y where "expand (\<lambda>r. main env argv fuel (name r) (d - 1))
              (slice (filter (filterExcludes argv) results) 0 (Some (recursive argv))) = Some y"
        by blast
      with Inr pr True show ?thesis
        by (cases y) simp_all
    next
      case False
      with Inr pr show ?thesis by auto
    qed
  qed
qed


subsection \<open>Slices, the exclude filter and the scored nodes\<close>






lemma slice_Nil: "slice [] b e = []"
  by (simp add: slice_def Let_def)






subsection \<open>The nodes of a call that recurses\<close>

lemma main_Returned_inv:
  assumes "main env argv fuel p d = Some (Returned rs)"
    and "scoredResults env argv p d = Inr (info, results)"
  shows "if recursive argv \<noteq> 0 \<and> d \<noteq> 0
         then map name rs = map name (slice (filter (filterExcludes argv) results) 0 (Some (recursive argv))) \<and>
              map downloads rs = map downloads (slice (filter (filterExcludes argv) results) 0 (Some (recursive argv)))
         else rs = results"
proof (cases fuel)
  case 0
  with assms show ?thesis by simp
next
  case (Suc n)
  with assms show ?thesis
    by (auto split: prod.splits option.splits sum.splits if_splits
             dest!: expand_Inl expand_Inr)
qed

lemma main_Returned_empty_selection:
  assumes "main env argv fuel p d = Some (Returned rs)"
    and "recursive argv \<noteq> 0" "d \<noteq> 0"
    and "\<And>results. slice (filter (filterExcludes argv) results) 0 (Some (recursive argv)) = []"
  shows "rs = []"
proof (cases "scoredResults env argv p d")
  case (Inl out)
  with assms(1) have "out = Returned rs" by (cases fuel) simp_all
  with Inl show ?thesis using scoredResults_Inl(2) by blast
next
  case (Inr pr)
  obtain info results where "pr = (info, results)" by (cases pr)
  with Inr main_Returned_inv[OF assms(1), of info results] assms(2-4)
  show ?thesis by simp
qed

subsection \<open>Every selected node is expanded\<close>




subsection \<open>The accumulation pass and the output\<close>










subsection \<open>An empty entry in the exclude option\<close>

lemma includesStr_empty: "includesStr s []"
  by (cases s) (simp_all add: startsWith_def)

lemma filterExcludes_empty_entry:
  "exclude argv = Some e \<Longrightarrow> [] \<in> set (split CHR '','' e) \<Longrightarrow> \<not> filterExcludes argv pkg"
  using includesStr_empty[of "name pkg"]
  by (auto simp: filterExcludes_def list_all_iff)

subsection \<open>The parser against the specification\<close>

lemma parse_characterised:
  "getPackageNameAndVersion tok =
     (if \<not> startsWith tok ''@'' \<and> CHR ''@'' \<in> set (afterFirst tok)
      then (beforeFirst tok, Some (beforeFirst (afterFirst tok)))
      else parseSpec tok)"
proof (cases "startsWith tok ''@''")
  case True
  then show ?thesis by (simp add: getPackageNameAndVersion_scoped parseSpec_def)
next
  case False
  have "CHR ''@'' \<in> set (afterFirst tok) \<Longrightarrow> CHR ''@'' \<in> set tok"
    unfolding afterFirst_def by (meson in_set_dropD set_dropWhileD)
  moreover have "CHR ''@'' \<notin> set (afterFirst tok) \<Longrightarrow> beforeFirst (afterFirst tok) = afterFirst tok"
    unfolding beforeFirst_def by (subst takeWhile_eq_all_conv) blast
  ultimately show ?thesis using False
    by (auto simp: getPackageNameAndVersion_unscoped parseSpec_def)
qed

subsection \<open>Calls that end early\<close>

lemma unresolved_package:
  assumes "fetchPackageInfo env (fst (getPackageNameAndVersion inputPackage))
             (snd (getPackageNameAndVersion inputPackage)) = None"
  shows "main env argv (Suc fuel) inputPackage d =
           Some (if recursive argv \<noteq> 0 \<and> depths argv \<noteq> d then Returned []
                 else Exited 0 (''Failed to fetch package info for ''
                                  @ fst (getPackageNameAndVersion inputPackage)))"
proof -
  obtain packageName v where g: "getPackageNameAndVersion inputPackage = (packageName, v)"
    by (cases "getPackageNameAndVersion inputPackage")
  with assms have "fetchPackageInfo env packageName v = None" by simp
  then have "scoredResults env argv inputPackage d =
               Inl (if recursive argv \<noteq> 0 \<and> depths argv \<noteq> d then Returned []
                    else Exited 0 (''Failed to fetch package info for '' @ packageName))"
    by (simp add: scoredResults_def g)
  then show ?thesis by (simp add: g)
qed

lemma missing_defaults_to_zero:
  assumes "downloadStats nm = None" "nm \<notin> set objectPrototypeKeys"
  shows "downloadsOf downloadStats nm = Number 0"
    and "trafficOf downloadStats packageInfo nm = Number 0"
  using assms by (simp_all add: downloadsOf_def trafficOf_def getProperty_def)

lemma missing_inherited:
  assumes "downloadStats nm = None" "nm \<in> set objectPrototypeKeys"
  shows "downloadsOf downloadStats nm = Inherited nm"
    and "trafficOf downloadStats packageInfo nm = NaN"
  using assms by (simp_all add: downloadsOf_def trafficOf_def getProperty_def)

lemma list_mode_scoredResults:
  assumes "list argv"
  shows "\<exists>out. scoredResults env argv p d = Inl out"
    and "scoredResults (env\<lparr>downloadsView := v\<rparr>) argv p d = scoredResults env argv p d"
  using assms
  by (auto simp: scoredResults_def Let_def fetchPackageInfo_def fetchDependents_def
           split: prod.splits option.splits DependentsResponse.splits)

lemma list_mode_no_stats:
  assumes "list argv"
  shows "main (env\<lparr>downloadsView := v\<rparr>) argv fuel p d = main env argv fuel p d"
proof (cases fuel)
  case 0
  then show ?thesis by simp
next
  case (Suc n)
  from list_mode_scoredResults(1)[OF assms, where env = env and p = p and d = d]
  obtain out where "scoredResults env argv p d = Inl out" by blast
  with Suc list_mode_scoredResults(2)[OF assms, where env = env and v = v and p = p and d = d]
  show ?thesis by simp
qed

section \<open>Accumulation\<close>

lemma foldl_plus_sum_list:
  "foldl (\<lambda>a b. a + f b) (acc :: int) xs = acc + sum_list (map f xs)"
  by (induction xs arbitrary: acc) simp_all

text \<open>
  Claim C1. For every result tree, \<open>accumulateStats\<close> returns the node's own downloads
  plus the sum of \<open>accumulateStats\<close> over its children. A node with downloads 10 and
  two childless children with downloads 3 and 7 accumulates to 20, and a node with no
  children accumulates to its own downloads.
\<close>

theorem accumulateStats_sum:
  "accumulateStats node = downloads node + sum_list (map accumulateStats (children node))
   \<and> accumulateStats
         (Results n 10 t dv [Results n1 3 t1 dv1 [] v1, Results n2 7 t2 dv2 [] v2] v) = 20
   \<and> accumulateStats (Results n d t dv [] v) = d"
  by (cases node) (simp add: foldl_plus_sum_list)



section \<open>Sorting by downloads\<close>



section \<open>Recursion width and display count\<close>




section \<open>Idempotence of the accumulation pass\<close>

text \<open>
  Claim C10. Applying the accumulation pass twice to a list of top-level nodes gives
  the same list as applying it once.
\<close>

theorem accumulateTop_idempotent:
  "accumulateTop packageInfo (accumulateTop packageInfo topResults) =
     accumulateTop packageInfo topResults"
proof -
  let ?once = "accumulateTop packageInfo topResults"
  have "map (accumulateResult packageInfo) ?once = ?once"
  proof (rule map_idI)
    fix r assume "r \<in> set ?once"
    then obtain r0 where "r = accumulateResult packageInfo r0"
      by (auto simp: accumulateTop_def set_sortBy)
    then show "accumulateResult packageInfo r = r" by (simp add: accumulateResult_idem)
  qed
  moreover have "sortedByDownloads ?once"
    by (simp add: accumulateTop_def sortedByDownloads_sortBy)
  ultimately show ?thesis
    by (simp add: accumulateTop_def[of packageInfo ?once] sortBy_sorted_id)
qed


section \<open>The exclude filter\<close>

text \<open>
  Claim C9. When the value of the exclude option has an empty entry among its
  comma-separated entries, as in \<open>foo,\<close> or in the empty string, \<open>filterExcludes\<close>
  rejects every node, because every name includes the empty string. The rows
  \<open>printOutput\<close> shows and the selection for the recursion are then empty, the
  outermost call prints no row, and a call that recurses returns no node.
\<close>

theorem empty_exclude_entry:
  "(exclude argv = Some e \<and> [] \<in> set (split CHR '','' e)
      \<longrightarrow> \<not> filterExcludes argv pkg
          \<and> printOutput argv results = []
          \<and> slice (filter (filterExcludes argv) results) 0 (Some (recursive argv)) = []
          \<and> (main env argv fuel inputPackage (depths argv) = Some (Printed rows)
                \<longrightarrow> rows = [])
          \<and> (recursive argv \<noteq> 0 \<and> d \<noteq> 0
              \<and> main env argv fuel inputPackage d = Some (Returned expanded)
                \<longrightarrow> expanded = []))
   \<and> [] \<in> set (split CHR '','' ''foo,'')
   \<and> [] \<in> set (split CHR '','' [])"
proof -
  have drops: "\<not> filterExcludes argv pkg
          \<and> printOutput argv results = []
          \<and> slice (filter (filterExcludes argv) results) 0 (Some (recursive argv)) = []
          \<and> (main env argv fuel inputPackage (depths argv) = Some (Printed rows)
                \<longrightarrow> rows = [])
          \<and> (recursive argv \<noteq> 0 \<and> d \<noteq> 0
              \<and> main env argv fuel inputPackage d = Some (Returned expanded)
                \<longrightarrow> expanded = [])"
    if e: "exclude argv = Some e" "[] \<in> set (split CHR '','' e)"
  proof -
    have none: "\<not> filterExcludes argv r" for r
      using e by (rule filterExcludes_empty_entry)
    then have f: "filter (filterExcludes argv) rs = []" for rs
      by (simp add: filter_empty_conv)
    have out: "printOutput argv rs = []" for rs
      by (simp add: printOutput_def f slice_Nil)
    have sel: "slice (filter (filterExcludes argv) rs) 0 (Some (recursive argv)) = []" for rs
      by (simp add: f slice_Nil)
    have top: "rows = []"
      if "main env argv fuel inputPackage (depths argv) = Some (Printed rows)"
      using main_top_Printed[OF that] out by auto
    have inner: "expanded = []"
      if "recursive argv \<noteq> 0 \<and> d \<noteq> 0
          \<and> main env argv fuel inputPackage d = Some (Returned expanded)"
      using that sel
      by (intro main_Returned_empty_selection[of env argv fuel inputPackage d expanded]) simp_all
    show ?thesis
      using none out sel top inner by blast
  qed
  have ex1: "[] \<in> set (split CHR '','' ''foo,'')" by (simp add: split_def)
  have ex2: "[] \<in> set (split CHR '','' [])" by (simp add: split_def)
  show ?thesis using drops ex1 ex2 by blast
qed

theorem empty_exclude_entry_witness:
  "exclude (defaultArgs\<lparr>exclude := Some ''foo,'', depths := 1\<rparr>) = Some ''foo,''
   \<and> [] \<in> set (split CHR '','' ''foo,'')
   \<and> \<not> filterExcludes (defaultArgs\<lparr>exclude := Some ''foo,'', depths := 1\<rparr>)
         (Results ''b'' 100 1000 False [] ''^1'')
   \<and> main exampleEnv (defaultArgs\<lparr>exclude := Some ''foo,'', depths := 1\<rparr>) (Suc (Suc 0)) ''p''
         (depths (defaultArgs\<lparr>exclude := Some ''foo,'', depths := 1\<rparr>))
       = Some (Printed [])
   \<and> recursive (defaultArgs\<lparr>exclude := Some ''foo,'', depths := 1\<rparr>) \<noteq> 0
   \<and> (2::int) \<noteq> 0
   \<and> main exampleEnv (defaultArgs\<lparr>exclude := Some ''foo,'', depths := 1\<rparr>) (Suc (Suc 0)) ''p'' 2
       = Some (Returned [])"
proof -
  let ?argv = "defaultArgs\<lparr>exclude := Some ''foo,'', depths := 1\<rparr>"
  have h1: "exclude ?argv = Some ''foo,''" by code_simp
  have h2: "[] \<in> set (split CHR '','' ''foo,'')" by code_simp
  have h3: "recursive ?argv \<noteq> 0" by code_simp
  note t = empty_exclude_entry[where argv = ?argv and e = "''foo,''"]
  have c1: "\<not> filterExcludes ?argv (Results ''b'' 100 1000 False [] ''^1'')"
    using h1 h2 t[where pkg = "Results ''b'' 100 1000 False [] ''^1''"] by blast
  have c2: "main exampleEnv ?argv (Suc (Suc 0)) ''p'' (depths ?argv) = Some (Printed [])"
    by code_simp
  have c3: "main exampleEnv ?argv (Suc (Suc 0)) ''p'' 2 = Some (Returned [])"
    by code_simp
  have h4: "(2::int) \<noteq> 0" by simp
  show ?thesis
    using h1 h2 h3 h4 c1 c2 c3 by blast
qed

section \<open>Parsing the package argument\<close>

text \<open>
  Claim C6, amended. A token that starts with \<open>@\<close> is split at its last \<open>@\<close> when it
  has another one, and is otherwise the name with no version. A token that does not
  start with \<open>@\<close> has as its name the text before its first \<open>@\<close> and as its version
  the text between the first \<open>@\<close> and the next one (or the end of the token), and no
  version when it has no \<open>@\<close>. So the parser agrees with the specification on every
  token but those that do not start with \<open>@\<close> and have two or more \<open>@\<close>, where the
  version stops at the second \<open>@\<close>. The four examples of the specification hold.
\<close>

theorem parse_amended:
  "getPackageNameAndVersion tok =
     (if \<not> startsWith tok ''@'' \<and> CHR ''@'' \<in> set (afterFirst tok)
      then (beforeFirst tok, Some (beforeFirst (afterFirst tok)))
      else parseSpec tok)
   \<and> getPackageNameAndVersion ''left-pad'' = (''left-pad'', None)
   \<and> getPackageNameAndVersion ''left-pad@1.2.3'' = (''left-pad'', Some ''1.2.3'')
   \<and> getPackageNameAndVersion ''@babel/core@7.0.0'' = (''@babel/core'', Some ''7.0.0'')
   \<and> getPackageNameAndVersion ''@babel/core'' = (''@babel/core'', None)"
proof -
  have e1: "getPackageNameAndVersion ''left-pad'' = (''left-pad'', None)"
    by code_simp
  have e2: "getPackageNameAndVersion ''left-pad@1.2.3'' = (''left-pad'', Some ''1.2.3'')"
    by code_simp
  have e3: "getPackageNameAndVersion ''@babel/core@7.0.0'' = (''@babel/core'', Some ''7.0.0'')"
    by code_simp
  have e4: "getPackageNameAndVersion ''@babel/core'' = (''@babel/core'', None)"
    by code_simp
  show ?thesis
    using parse_characterised[of tok] e1 e2 e3 e4 by blast
qed

theorem parse_amended_witness:
  "getPackageNameAndVersion ''a@b@c'' = (''a'', Some ''b'')
   \<and> getPackageNameAndVersion ''@s/n@1@2'' = (''@s/n@1'', Some ''2'')"
proof -
  have a: "\<not> startsWith ''a@b@c'' ''@'' \<and> CHR ''@'' \<in> set (afterFirst ''a@b@c'')"
    by code_simp
  have b: "(beforeFirst ''a@b@c'', Some (beforeFirst (afterFirst ''a@b@c''))) = (''a'', Some ''b'')"
    by code_simp
  have c: "startsWith ''@s/n@1@2'' ''@''" by code_simp
  have d: "parseSpec ''@s/n@1@2'' = (''@s/n@1'', Some ''2'')" by code_simp
  show ?thesis
    using a b c d parse_amended[of "''a@b@c''"] parse_amended[of "''@s/n@1@2''"]
    by simp
qed

theorem parse_first_at_counterexample:
  "getPackageNameAndVersion ''a@b@c'' = (''a'', Some ''b'')
   \<and> parseSpec ''a@b@c'' = (''a'', Some ''b@c'')
   \<and> getPackageNameAndVersion ''a@b@c'' \<noteq> parseSpec ''a@b@c''"
  by code_simp

section \<open>Resolution failure\<close>

text \<open>
  Claim C4. When the package does not resolve, an inner call returns the empty list.
  The outermost call writes the message and calls \<open>process.exit()\<close> without a code;
  the process ends with status 0, where the specification says 1 (as
  \<open>process.exit(1)\<close> does for a missing package name).
\<close>

theorem top_level_failure_exit_status:
  "main exampleEnv defaultArgs (Suc 0) ''gone'' (depths defaultArgs)
     = Some (Exited 0 ''Failed to fetch package info for gone'')
   \<and> main exampleEnv (defaultArgs\<lparr>depths := 1\<rparr>) (Suc 0) ''gone'' 0 = Some (Returned [])"
  by code_simp

section \<open>Missing download counts\<close>

text \<open>
  Claim C7. A dependent that has no row in the answer of the downloads view gets 0
  downloads and 0 traffic when its name is not a member of \<open>Object.prototype\<close>
  (\<open>missing_defaults_to_zero\<close>). For a dependent named \<open>constructor\<close> the read
  \<open>downloadStats[name]\<close> gives the inherited member, \<open>?? 0\<close> does not apply, and
  downloads is a function and traffic \<open>NaN\<close>.
\<close>

theorem inherited_key_not_defaulted:
  "fromEntries [] ''constructor'' = None
   \<and> downloadsOf (fromEntries []) ''constructor'' = Inherited ''constructor''
   \<and> trafficOf (fromEntries [])
        \<lparr>info_name = ''q'', info_version = ''1.0.0'', dist_size = Some 10\<rparr> ''constructor'' = NaN
   \<and> main exampleEnv defaultArgs (Suc 0) ''q'' 0 = Some (NotNumeric ''constructor'')"
  by code_simp

section \<open>List mode\<close>

text \<open>
  Claim C8. In list mode nothing is fetched from the downloads view, scored or
  rendered (\<open>list_mode_no_stats\<close>). What is printed for a dependent is \<open>d.value\<close>,
  the object with its name and version range, not the bare name.
\<close>

theorem list_mode_logs_objects:
  "main exampleEnv (defaultArgs\<lparr>list := True\<rparr>) (Suc 0) ''p'' 0
     = Some (Listed [LoggedObject \<lparr>dep_name = ''a'', dep_version = ''^1''\<rparr>,
                     LoggedObject \<lparr>dep_name = ''b'', dep_version = ''^1''\<rparr>,
                     LoggedObject \<lparr>dep_name = ''c'', dep_version = ''^1''\<rparr>,
                     LoggedObject \<lparr>dep_name = ''d'', dep_version = ''^1''\<rparr>])
   \<and> main exampleEnv (defaultArgs\<lparr>list := True\<rparr>) (Suc 0) ''p'' 0
     \<noteq> Some (Listed [LoggedString ''a'', LoggedString ''b'', LoggedString ''c'',
                     LoggedString ''d''])"
  by code_simp


end
